theory Spec2Isabelle
  imports Main
begin

section \<open>The tile animation driver of the tilemap scene\<close>

text \<open>
  The scene file declares \<^verbatim>\<open>TilemapScene\<close>, which scans the tile layers of a
  parsed tilemap once in \<^verbatim>\<open>create\<close> and wraps every matching tile in an
  \<^verbatim>\<open>AnimatedTile\<close>, and \<^verbatim>\<open>AnimatedTile\<close>, whose \<^verbatim>\<open>update\<close>
  advances a clock and rewrites the \<^verbatim>\<open>index\<close> of the tile it refers to.

  Numbers. A JavaScript \<^verbatim>\<open>number\<close> is a double. The numbers of this model are
  integers: Tiled stores frame durations in whole milliseconds, and tile ids and global
  ids are integers. On integers below \<open>2^53\<close> the operations the driver uses
  (\<^verbatim>\<open>+\<close>, \<^verbatim>\<open>-\<close>, \<^verbatim>\<open>*\<close>, \<^verbatim>\<open>%\<close> and \<^verbatim>\<open>Math.floor\<close> of a
  quotient) are exact, so the model computes what the program computes there. What
  \<^verbatim>\<open>%\<close> and \<^verbatim>\<open>/\<close> return at a zero divisor (\<^verbatim>\<open>NaN\<close>, an infinity) is
  not a value of the model: the branch the program takes from there is written out.
  Fractional deltas and rounding are outside the model.
\<close>

subsection \<open>Data\<close>

text \<open>One step of \<^verbatim>\<open>TileAnimationData\<close>: \<^verbatim>\<open>{ duration: number; tileid: number }\<close>.\<close>

record frame =
  duration :: int
  tileid :: int

type_synonym TileAnimationData = "frame list"

text \<open>
  A value of \<^verbatim>\<open>TilesetTileData\<close>: \<^verbatim>\<open>{ animation?: TileAnimationData }\<close>. The
  field is optional, \<open>None\<close> is \<^verbatim>\<open>undefined\<close>.
\<close>

record TilesetTile =
  animation :: "TileAnimationData option"

text \<open>
  \<^verbatim>\<open>TilesetTileData\<close> as \<^verbatim>\<open>for (let tileid in tileData)\<close> walks it: the own keys
  of the object in enumeration order, each already read by \<^verbatim>\<open>parseInt(tileid, 10)\<close>,
  with the value \<^verbatim>\<open>tileData[tileid]\<close>. The keys of an object are distinct.
\<close>

type_synonym TilesetTileData = "(int \<times> TilesetTile) list"

text \<open>
  One element of \<^verbatim>\<open>tilemap.layers\<close>. \<open>tilemapLayer\<close> is the \<^verbatim>\<open>type\<close> string of
  \<^verbatim>\<open>layer.tilemapLayer\<close>, \<open>None\<close> when the layer has no \<^verbatim>\<open>tilemapLayer\<close> (none
  was created for it). \<open>data\<close> is \<^verbatim>\<open>layer.data\<close>, the rows of tiles, each tile given
  by its \<^verbatim>\<open>index\<close> field, the only field of a tile the driver reads or writes (the
  scene makes its tilemap without \<^verbatim>\<open>insertNull\<close>, so every cell holds a tile, an empty
  one with the index \<open>-1\<close>).
\<close>

record LayerData =
  tilemapLayer :: "string option"
  data :: "int list list"

text \<open>
  The tile grid is the store the driver mutates. Every cell of \<^verbatim>\<open>layer.data\<close> holds a
  tile object of its own, so the reference \<^verbatim>\<open>AnimatedTile.tile\<close> is the position of
  the tile: layer, row, column.
\<close>

type_synonym Tilemap = "LayerData list"

type_synonym tile_ref = "nat \<times> nat \<times> nat"

definition tile_index :: "Tilemap \<Rightarrow> tile_ref \<Rightarrow> int" where
  "tile_index tm ref = (case ref of (l, r, c) \<Rightarrow> data (tm ! l) ! r ! c)"

text \<open>The assignment \<^verbatim>\<open>tile.index = v\<close> through a reference.\<close>

definition set_tile_index :: "tile_ref \<Rightarrow> int \<Rightarrow> Tilemap \<Rightarrow> Tilemap" where
  "set_tile_index ref v tm =
     (case ref of (l, r, c) \<Rightarrow>
        tm[l := (tm ! l)\<lparr>data := (data (tm ! l))[r := (data (tm ! l) ! r)[c := v]]\<rparr>])"

text \<open>The fields of \<^verbatim>\<open>class AnimatedTile\<close>.\<close>

record AnimatedTile =
  tile :: tile_ref
  tileAnimationData :: TileAnimationData
  firstgid :: int
  elapsedTime :: int
  animationDuration :: int

text \<open>
  The only exception the driver can raise is the \<^verbatim>\<open>TypeError\<close> of reading a property
  of \<^verbatim>\<open>undefined\<close>.
\<close>

datatype error = TypeError

subsection \<open>AnimatedTile\<close>

text \<open>
  The constructor. Its second argument is \<^verbatim>\<open>tileData[tileid].animation\<close>, which can
  be \<^verbatim>\<open>undefined\<close>. \<^verbatim>\<open>tileAnimationData[0].duration\<close> throws when the argument is
  \<^verbatim>\<open>undefined\<close> and when the array is empty (\<^verbatim>\<open>tileAnimationData[0]\<close> is then
  \<^verbatim>\<open>undefined\<close>). There is no other check.
\<close>

definition AnimatedTile_constructor ::
  "tile_ref \<Rightarrow> TileAnimationData option \<Rightarrow> int \<Rightarrow> error + AnimatedTile" where
  "AnimatedTile_constructor ref anim fg =
     (case anim of
        None \<Rightarrow> Inl TypeError
      | Some [] \<Rightarrow> Inl TypeError
      | Some (f0 # fs) \<Rightarrow>
          Inr \<lparr>tile = ref, tileAnimationData = f0 # fs, firstgid = fg, elapsedTime = 0,
               animationDuration = duration f0 * int (length (f0 # fs))\<rparr>)"

text \<open>
  The remainder operator \<^verbatim>\<open>%\<close> of JavaScript on finite numbers with a divisor other
  than zero: the result has the sign of the dividend.
\<close>

definition js_rem :: "int \<Rightarrow> int \<Rightarrow> int" where
  "js_rem a b = (if a < 0 then - ((- a) mod \<bar>b\<bar>) else a mod \<bar>b\<bar>)"

text \<open>
  \<^verbatim>\<open>update(delta)\<close>. The result is \<open>Inr\<close> of the instance and the tile grid after
  the call, or \<open>Inl\<close> of the exception and the tile grid when it was thrown (the write
  to \<^verbatim>\<open>tile.index\<close> is the last statement, so the grid is then unchanged). The
  instance is not observed after an exception: its clock has been advanced by then, and
  is \<^verbatim>\<open>NaN\<close> when the total duration is zero.
  \<^item> \<^verbatim>\<open>this.elapsedTime += delta; this.elapsedTime %= this.animationDuration\<close>: with
    \<^verbatim>\<open>animationDuration\<close> zero the remainder is \<^verbatim>\<open>NaN\<close>, the frame index below is
    \<^verbatim>\<open>NaN\<close> too and the frame read is \<^verbatim>\<open>undefined\<close>;
  \<^item> \<^verbatim>\<open>this.tileAnimationData[0].duration\<close> throws on an empty array;
  \<^item> a zero duration makes the quotient an infinity or \<^verbatim>\<open>NaN\<close>, and the frame read
    \<^verbatim>\<open>undefined\<close>;
  \<^item> otherwise \<^verbatim>\<open>Math.floor\<close> of the quotient is the floor division \<open>div\<close>; an index
    outside of the array reads \<^verbatim>\<open>undefined\<close>, and \<^verbatim>\<open>.tileid\<close> of it throws.
\<close>

definition AnimatedTile_update ::
  "AnimatedTile \<Rightarrow> int \<Rightarrow> Tilemap \<Rightarrow> (error \<times> Tilemap) + (AnimatedTile \<times> Tilemap)" where
  "AnimatedTile_update t delta tm =
     (case tileAnimationData t of
        [] \<Rightarrow> Inl (TypeError, tm)
      | f0 # fs \<Rightarrow>
          if animationDuration t = 0 \<or> duration f0 = 0 then Inl (TypeError, tm)
          else
            let e = js_rem (elapsedTime t + delta) (animationDuration t);
                animatonFrameIndex = e div duration f0
            in if 0 \<le> animatonFrameIndex
                  \<and> animatonFrameIndex < int (length (tileAnimationData t))
               then Inr (t\<lparr>elapsedTime := e\<rparr>,
                         set_tile_index (tile t)
                           (tileid (tileAnimationData t ! nat animatonFrameIndex) + firstgid t) tm)
               else Inl (TypeError, tm))"

text \<open>
  Successive calls \<^verbatim>\<open>t.update(d1); t.update(d2); ...\<close> on one instance, as the
  scene makes them frame after frame. An exception ends the sequence.
\<close>

fun run_updates ::
  "AnimatedTile \<Rightarrow> int list \<Rightarrow> Tilemap \<Rightarrow> (error \<times> Tilemap) + (AnimatedTile \<times> Tilemap)" where
  "run_updates t [] tm = Inr (t, tm)"
| "run_updates t (d # ds) tm =
     (case AnimatedTile_update t d tm of
        Inl x \<Rightarrow> Inl x
      | Inr (t', tm') \<Rightarrow> run_updates t' ds tm')"

subsection \<open>TilemapScene\<close>

text \<open>
  Of the fields of \<^verbatim>\<open>class TilemapScene\<close> the driver uses \<^verbatim>\<open>animatedTiles\<close>. The
  player sprite, the physics world and the camera are objects of the engine, and no
  statement on them reads or writes a tile index or \<^verbatim>\<open>animatedTiles\<close>.
\<close>

record TilemapScene =
  animatedTiles :: "AnimatedTile list"

definition TilemapScene_init :: "TilemapScene \<Rightarrow> TilemapScene" where
  "TilemapScene_init s = s\<lparr>animatedTiles := []\<rparr>"

text \<open>
  The scan of \<^verbatim>\<open>create\<close>, from the innermost loop outwards. \<open>key\<close> is
  \<^verbatim>\<open>parseInt(tileid, 10)\<close>, \<open>anim\<close> is \<^verbatim>\<open>tileData[tileid].animation\<close>, \<open>fg\<close> is
  \<^verbatim>\<open>tileset.firstgid\<close>; \<open>l\<close>, \<open>r\<close> and \<open>c\<close> count the layers, rows and tiles
  already passed, and \<open>acc\<close> is \<^verbatim>\<open>this.animatedTiles\<close>. An exception carries
  \<^verbatim>\<open>this.animatedTiles\<close> as it was when thrown.

  \<^verbatim>\<open>tileRow.forEach(tile => { if (tile.index - tileset.firstgid === parseInt(tileid, 10))
  this.animatedTiles.push(new AnimatedTile(tile, tileData[tileid].animation, tileset.firstgid)) })\<close>
\<close>

fun forEach_tile ::
  "int \<Rightarrow> TileAnimationData option \<Rightarrow> int \<Rightarrow> nat \<Rightarrow> nat \<Rightarrow> nat \<Rightarrow> int list
     \<Rightarrow> AnimatedTile list \<Rightarrow> (error \<times> AnimatedTile list) + AnimatedTile list" where
  "forEach_tile key anim fg l r c [] acc = Inr acc"
| "forEach_tile key anim fg l r c (index # tileRow) acc =
     (if index - fg = key
      then (case AnimatedTile_constructor (l, r, c) anim fg of
              Inl e \<Rightarrow> Inl (e, acc)
            | Inr a \<Rightarrow> forEach_tile key anim fg l r (Suc c) tileRow (acc @ [a]))
      else forEach_tile key anim fg l r (Suc c) tileRow acc)"

text \<open>\<^verbatim>\<open>layer.data.forEach(tileRow => ...)\<close>\<close>

fun forEach_tileRow ::
  "int \<Rightarrow> TileAnimationData option \<Rightarrow> int \<Rightarrow> nat \<Rightarrow> nat \<Rightarrow> int list list
     \<Rightarrow> AnimatedTile list \<Rightarrow> (error \<times> AnimatedTile list) + AnimatedTile list" where
  "forEach_tileRow key anim fg l r [] acc = Inr acc"
| "forEach_tileRow key anim fg l r (tileRow # rows) acc =
     (case forEach_tile key anim fg l r 0 tileRow acc of
        Inl x \<Rightarrow> Inl x
      | Inr acc' \<Rightarrow> forEach_tileRow key anim fg l (Suc r) rows acc')"

text \<open>The test \<^verbatim>\<open>layer.tilemapLayer.type === "StaticTilemapLayer"\<close>.\<close>

definition static_layer :: "LayerData \<Rightarrow> bool" where
  "static_layer layer \<longleftrightarrow> tilemapLayer layer = Some ''StaticTilemapLayer''"

text \<open>
  \<^verbatim>\<open>tilemap.layers.forEach(layer => { if (layer.tilemapLayer.type === "StaticTilemapLayer")
  return; layer.data.forEach(...) })\<close>. Reading \<^verbatim>\<open>.type\<close> throws on a layer without a
  \<^verbatim>\<open>tilemapLayer\<close>.
\<close>

fun forEach_layer ::
  "int \<Rightarrow> TileAnimationData option \<Rightarrow> int \<Rightarrow> nat \<Rightarrow> LayerData list
     \<Rightarrow> AnimatedTile list \<Rightarrow> (error \<times> AnimatedTile list) + AnimatedTile list" where
  "forEach_layer key anim fg l [] acc = Inr acc"
| "forEach_layer key anim fg l (layer # ls) acc =
     (case tilemapLayer layer of
        None \<Rightarrow> Inl (TypeError, acc)
      | Some ty \<Rightarrow>
          if ty = ''StaticTilemapLayer'' then forEach_layer key anim fg (Suc l) ls acc
          else (case forEach_tileRow key anim fg l 0 (data layer) acc of
                  Inl x \<Rightarrow> Inl x
                | Inr acc' \<Rightarrow> forEach_layer key anim fg (Suc l) ls acc'))"

text \<open>\<^verbatim>\<open>for (let tileid in tileData) { tilemap.layers.forEach(...) }\<close>\<close>

fun for_tileid ::
  "TilesetTileData \<Rightarrow> int \<Rightarrow> Tilemap \<Rightarrow> AnimatedTile list
     \<Rightarrow> (error \<times> AnimatedTile list) + AnimatedTile list" where
  "for_tileid [] fg tm acc = Inr acc"
| "for_tileid ((key, entry) # tileData) fg tm acc =
     (case forEach_layer key (animation entry) fg 0 tm acc of
        Inl x \<Rightarrow> Inl x
      | Inr acc' \<Rightarrow> for_tileid tileData fg tm acc')"

text \<open>
  \<^verbatim>\<open>create\<close>: \<open>tm\<close> is \<^verbatim>\<open>tilemap.layers\<close> once the layers of the scene are made,
  \<open>tileData\<close> is \<^verbatim>\<open>tileset.tileData\<close> and \<open>fg\<close> is \<^verbatim>\<open>tileset.firstgid\<close>. The scan
  reads the tile grid and writes nothing to it.
\<close>

definition TilemapScene_create ::
  "TilemapScene \<Rightarrow> Tilemap \<Rightarrow> TilesetTileData \<Rightarrow> int \<Rightarrow> (error \<times> TilemapScene) + TilemapScene" where
  "TilemapScene_create s tm tileData fg =
     (case for_tileid tileData fg tm (animatedTiles s) of
        Inl (e, acc) \<Rightarrow> Inl (e, s\<lparr>animatedTiles := acc\<rparr>)
      | Inr acc \<Rightarrow> Inr (s\<lparr>animatedTiles := acc\<rparr>))"

text \<open>\<^verbatim>\<open>this.animatedTiles.forEach(tile => tile.update(delta))\<close>\<close>

fun forEach_update ::
  "AnimatedTile list \<Rightarrow> int \<Rightarrow> Tilemap \<Rightarrow> (error \<times> Tilemap) + (AnimatedTile list \<times> Tilemap)" where
  "forEach_update [] delta tm = Inr ([], tm)"
| "forEach_update (t # ts) delta tm =
     (case AnimatedTile_update t delta tm of
        Inl x \<Rightarrow> Inl x
      | Inr (t', tm') \<Rightarrow>
          (case forEach_update ts delta tm' of
             Inl x \<Rightarrow> Inl x
           | Inr (ts', tm'') \<Rightarrow> Inr (t' # ts', tm'')))"

text \<open>\<^verbatim>\<open>update(time, delta)\<close> of the scene; \<^verbatim>\<open>time\<close> is not used.\<close>

definition TilemapScene_update ::
  "TilemapScene \<Rightarrow> int \<Rightarrow> int \<Rightarrow> Tilemap \<Rightarrow> (error \<times> Tilemap) + (TilemapScene \<times> Tilemap)" where
  "TilemapScene_update s time delta tm =
     (case forEach_update (animatedTiles s) delta tm of
        Inl x \<Rightarrow> Inl x
      | Inr (ts, tm') \<Rightarrow> Inr (s\<lparr>animatedTiles := ts\<rparr>, tm'))"

text \<open>
  The frames of a running scene: one \<^verbatim>\<open>update(time, delta)\<close> for each element of the
  list, until an exception.
\<close>

fun run_frames ::
  "TilemapScene \<Rightarrow> (int \<times> int) list \<Rightarrow> Tilemap \<Rightarrow> (error \<times> Tilemap) + (TilemapScene \<times> Tilemap)" where
  "run_frames s [] tm = Inr (s, tm)"
| "run_frames s ((time, delta) # fs) tm =
     (case TilemapScene_update s time delta tm of
        Inl x \<Rightarrow> Inl x
      | Inr (s', tm') \<Rightarrow> run_frames s' fs tm')"

subsection \<open>Reading an outcome\<close>

text \<open>
  What a scan or \<^verbatim>\<open>create\<close> leaves behind, whether it returned or threw: the
  list \<^verbatim>\<open>this.animatedTiles\<close>, or the scene.
\<close>

definition state_of :: "(error \<times> 's) + 's \<Rightarrow> 's" where
  "state_of out = (case out of Inl (e, s) \<Rightarrow> s | Inr s \<Rightarrow> s)"

text \<open>The tile grid after an update, whether it returned or threw.\<close>

definition grid_of :: "(error \<times> Tilemap) + ('a \<times> Tilemap) \<Rightarrow> Tilemap" where
  "grid_of out = (case out of Inl (e, tm) \<Rightarrow> tm | Inr (x, tm) \<Rightarrow> tm)"

subsection \<open>Invariants\<close>

text \<open>A reference that points at a tile of the grid.\<close>

definition valid_ref :: "Tilemap \<Rightarrow> tile_ref \<Rightarrow> bool" where
  "valid_ref tm ref =
     (case ref of (l, r, c) \<Rightarrow>
        l < length tm \<and> r < length (data (tm ! l)) \<and> c < length (data (tm ! l) ! r))"

text \<open>
  \<open>wraps tm fg key anim a\<close>: the instance \<open>a\<close> is what the constructor returns for
  a tile of the grid that lies in a layer which is not static and whose index minus the
  first gid is \<open>key\<close>, with the animation data \<open>anim\<close>.
\<close>

definition wraps ::
  "Tilemap \<Rightarrow> int \<Rightarrow> int \<Rightarrow> TileAnimationData option \<Rightarrow> AnimatedTile \<Rightarrow> bool" where
  "wraps tm fg key anim a \<longleftrightarrow>
     valid_ref tm (tile a) \<and> \<not> static_layer (tm ! fst (tile a))
     \<and> tile_index tm (tile a) - fg = key
     \<and> AnimatedTile_constructor (tile a) anim fg = Inr a"

text \<open>
  What the constructor establishes when the duration of the first frame is positive, and
  what every update by a non-negative delta keeps: a frame list that is not empty, a
  positive duration of the first frame, the total duration the constructor computes, and
  a clock within one cycle.
\<close>

definition well_formed :: "AnimatedTile \<Rightarrow> bool" where
  "well_formed t \<longleftrightarrow>
     tileAnimationData t \<noteq> []
     \<and> 0 < duration (tileAnimationData t ! 0)
     \<and> animationDuration t
         = duration (tileAnimationData t ! 0) * int (length (tileAnimationData t))
     \<and> 0 \<le> elapsedTime t \<and> elapsedTime t < animationDuration t"

subsection \<open>The scenario of the specification\<close>

definition scenario_frames :: TileAnimationData where
  "scenario_frames =
     [\<lparr>duration = 100, tileid = 0\<rparr>, \<lparr>duration = 100, tileid = 1\<rparr>, \<lparr>duration = 100, tileid = 2\<rparr>]"

definition scenario_map :: Tilemap where
  "scenario_map = [\<lparr>tilemapLayer = Some ''DynamicTilemapLayer'', data = [[1]]\<rparr>]"

definition scenario_tile :: "int \<Rightarrow> AnimatedTile" where
  "scenario_tile e =
     \<lparr>tile = (0, 0, 0), tileAnimationData = scenario_frames, firstgid = 1, elapsedTime = e,
      animationDuration = 300\<rparr>"

subsection \<open>A scene with an animated tile\<close>

text \<open>
  A tileset whose tile 5 is animated by the tiles 7 and 8, and a map of a static layer
  above a dynamic one, both showing tile 5: with first gid 1 its global index is 6.
\<close>

definition water_frames :: TileAnimationData where
  "water_frames = [\<lparr>duration = 100, tileid = 7\<rparr>, \<lparr>duration = 100, tileid = 8\<rparr>]"

definition water_tileData :: TilesetTileData where
  "water_tileData = [(5, \<lparr>animation = Some water_frames\<rparr>)]"

definition water_map :: Tilemap where
  "water_map =
     [\<lparr>tilemapLayer = Some ''StaticTilemapLayer'', data = [[6]]\<rparr>,
      \<lparr>tilemapLayer = Some ''DynamicTilemapLayer'', data = [[1, 6]]\<rparr>]"

definition water_tile :: "int \<Rightarrow> AnimatedTile" where
  "water_tile e =
     \<lparr>tile = (1, 0, 1), tileAnimationData = water_frames, firstgid = 1, elapsedTime = e,
      animationDuration = 200\<rparr>"

text \<open>
  A tileset whose tile 0 has an entry without animation data, as a tile with collision
  shapes has, and whose tile 1 is animated; a map of one dynamic layer showing both.
\<close>

definition mixed_tileData :: TilesetTileData where
  "mixed_tileData =
     [(0, \<lparr>animation = None\<rparr>),
      (1, \<lparr>animation = Some [\<lparr>duration = 100, tileid = 1\<rparr>, \<lparr>duration = 100, tileid = 2\<rparr>]\<rparr>)]"

definition mixed_map :: Tilemap where
  "mixed_map = [\<lparr>tilemapLayer = Some ''DynamicTilemapLayer'', data = [[1, 2]]\<rparr>]"

section \<open>Properties\<close>

subsection \<open>The tile grid\<close>



subsection \<open>One update of a well-formed instance\<close>

lemma js_rem_nonneg: "0 \<le> a \<Longrightarrow> 0 < b \<Longrightarrow> js_rem a b = a mod b"
  by (simp add: js_rem_def)

lemma frame_index_in_range:
  fixes D :: int
  assumes "0 < D" "0 < N" "0 \<le> x"
  shows "0 \<le> (x mod (D * N)) div D \<and> (x mod (D * N)) div D < N"
proof -
  let ?e = "x mod (D * N)"
  have T: "0 < D * N" using assms by simp
  have e: "0 \<le> ?e" "?e < N * D" using T by (simp_all add: mult.commute)
  have "?e div D < N"
  proof (rule ccontr)
    assume "\<not> ?e div D < N"
    then have "N * D \<le> ?e div D * D"
      using assms(1) by (simp add: mult_right_mono)
    moreover have "?e div D * D + ?e mod D = ?e" by (rule div_mult_mod_eq)
    moreover have "0 \<le> ?e mod D" using assms(1) by simp
    ultimately show False using e(2) by linarith
  qed
  then show ?thesis using e(1) assms(1) by (simp add: pos_imp_zdiv_nonneg_iff)
qed


lemma update_well_formed:
  assumes "well_formed t" "0 \<le> delta"
  shows "AnimatedTile_update t delta tm =
     Inr (t\<lparr>elapsedTime := (elapsedTime t + delta) mod animationDuration t\<rparr>,
          set_tile_index (tile t)
            (tileid (tileAnimationData t !
               nat (((elapsedTime t + delta) mod animationDuration t)
                      div duration (tileAnimationData t ! 0)))
             + firstgid t) tm)"
proof -
  obtain f0 fs where fs: "tileAnimationData t = f0 # fs"
    using assms(1) by (cases "tileAnimationData t") (auto simp: well_formed_def)
  have D: "0 < duration f0"
    and T: "animationDuration t = duration f0 * int (length (f0 # fs))"
    and e: "0 \<le> elapsedTime t"
    using assms(1) by (simp_all add: well_formed_def fs)
  have Tpos: "0 < animationDuration t" using D T by simp
  have r: "js_rem (elapsedTime t + delta) (animationDuration t)
      = (elapsedTime t + delta) mod animationDuration t"
    using e assms(2) Tpos by (simp add: js_rem_nonneg)
  have "0 \<le> ((elapsedTime t + delta) mod (duration f0 * int (length (f0 # fs)))) div duration f0
     \<and> ((elapsedTime t + delta) mod (duration f0 * int (length (f0 # fs)))) div duration f0
         < int (length (f0 # fs))"
    using D e assms(2) by (intro frame_index_in_range) simp_all
  then show ?thesis
    using D Tpos r T by (simp add: AnimatedTile_update_def fs Let_def)
qed

lemma well_formed_update:
  assumes "well_formed t" "0 \<le> delta" "AnimatedTile_update t delta tm = Inr (t', tm')"
  shows "well_formed t'"
proof -
  have t': "t' = t\<lparr>elapsedTime := (elapsedTime t + delta) mod animationDuration t\<rparr>"
    using assms update_well_formed [OF assms(1,2), of tm] by simp
  have "0 < animationDuration t" using assms(1) by (simp add: well_formed_def)
  then show ?thesis using assms(1) by (simp add: t' well_formed_def)
qed

lemma well_formed_constructor:
  assumes "AnimatedTile_constructor ref anim fg = Inr t" "0 < animationDuration t"
  shows "well_formed t"
  using assms
  by (auto simp: AnimatedTile_constructor_def well_formed_def zero_less_mult_iff
      split: option.splits list.splits)

lemma run_updates_clock:
  assumes "well_formed t" "\<forall>d\<in>set ds. 0 \<le> d"
  shows "\<exists>t' tm'. run_updates t ds tm = Inr (t', tm') \<and> well_formed t'
     \<and> animationDuration t' = animationDuration t
     \<and> elapsedTime t' = (elapsedTime t + sum_list ds) mod animationDuration t"
  using assms
proof (induction ds arbitrary: t tm)
  case Nil
  then show ?case by (simp add: well_formed_def)
next
  case (Cons d ds)
  let ?t1 = "t\<lparr>elapsedTime := (elapsedTime t + d) mod animationDuration t\<rparr>"
  obtain tm1 where u: "AnimatedTile_update t d tm = Inr (?t1, tm1)"
    using update_well_formed [of t d tm] Cons.prems by simp
  have "well_formed ?t1" using well_formed_update [OF _ _ u] Cons.prems by simp
  from Cons.IH [OF this, of tm1] Cons.prems(2) show ?case
    by (simp add: u mod_add_left_eq add.assoc)
qed


subsection \<open>Claims on one instance\<close>



text \<open>
  C2. For the frames \<open>[{100, 0}, {100, 1}, {100, 2}]\<close> with first gid 1, the constructed
  instance has elapsed time 0 and total duration 300; \<open>update(150)\<close> leaves the elapsed
  time 150 and the displayed index 2, and a following \<open>update(200)\<close> leaves the elapsed
  time 50 and the displayed index 1.
\<close>

theorem scenario_150_then_200:
  "AnimatedTile_constructor (0, 0, 0) (Some scenario_frames) 1 = Inr (scenario_tile 0)
   \<and> elapsedTime (scenario_tile 0) = 0
   \<and> AnimatedTile_update (scenario_tile 0) 150 scenario_map
       = Inr (scenario_tile 150, set_tile_index (0, 0, 0) 2 scenario_map)
   \<and> tile_index (set_tile_index (0, 0, 0) 2 scenario_map) (0, 0, 0) = 2
   \<and> AnimatedTile_update (scenario_tile 150) 200 (set_tile_index (0, 0, 0) 2 scenario_map)
       = Inr (scenario_tile 50, set_tile_index (0, 0, 0) 1 scenario_map)
   \<and> tile_index (set_tile_index (0, 0, 0) 1 scenario_map) (0, 0, 0) = 1"
  by (simp add: AnimatedTile_constructor_def AnimatedTile_update_def scenario_frames_def
      scenario_map_def scenario_tile_def js_rem_def set_tile_index_def tile_index_def)





text \<open>
  C8. An instance the constructor returns has the elapsed time 0. When its total
  duration is positive, every sequence of updates with deltas that are not negative
  returns, keeps the total duration, and leaves the elapsed time equal to the sum of the
  deltas modulo the total duration, at least 0 and less than the total duration.
\<close>

theorem elapsed_time_stays_in_cycle:
  assumes "AnimatedTile_constructor ref anim fg = Inr t0"
    and "0 < animationDuration t0"
    and "\<forall>d\<in>set ds. 0 \<le> d"
  shows "elapsedTime t0 = 0
     \<and> (\<exists>t tm'. run_updates t0 ds tm = Inr (t, tm')
           \<and> animationDuration t = animationDuration t0
           \<and> elapsedTime t = sum_list ds mod animationDuration t0
           \<and> 0 \<le> elapsedTime t \<and> elapsedTime t < animationDuration t0)"
proof -
  have z: "elapsedTime t0 = 0"
    using assms(1) by (auto simp: AnimatedTile_constructor_def split: option.splits list.splits)
  have wf: "well_formed t0" using well_formed_constructor [OF assms(1,2)] .
  obtain t tm' where r: "run_updates t0 ds tm = Inr (t, tm')" and wft: "well_formed t"
    and T: "animationDuration t = animationDuration t0"
    and e: "elapsedTime t = (elapsedTime t0 + sum_list ds) mod animationDuration t0"
    using run_updates_clock [OF wf assms(3), of tm] by blast
  show ?thesis using z r T e assms(2) by simp
qed

theorem elapsed_time_stays_in_cycle_witness:
  "AnimatedTile_constructor (0, 0, 0) (Some scenario_frames) 1 = Inr (scenario_tile 0)
   \<and> 0 < animationDuration (scenario_tile 0)
   \<and> elapsedTime (scenario_tile 0) = 0
   \<and> (\<exists>t tm'. run_updates (scenario_tile 0) [150, 200, 0, 299] scenario_map = Inr (t, tm')
         \<and> elapsedTime t = 49 \<and> animationDuration t = 300)"
proof -
  have c: "AnimatedTile_constructor (0, 0, 0) (Some scenario_frames) 1 = Inr (scenario_tile 0)"
    by (simp add: AnimatedTile_constructor_def scenario_tile_def scenario_frames_def)
  have T: "animationDuration (scenario_tile 0) = 300" by (simp add: scenario_tile_def)
  have pos: "0 < animationDuration (scenario_tile 0)" by (simp add: T)
  have ds: "\<forall>d\<in>set [150, 200, 0, 299 :: int]. 0 \<le> d" by simp
  show ?thesis
    using elapsed_time_stays_in_cycle [OF c pos ds, of scenario_map] c
    by (auto simp: T)
qed




subsection \<open>The scan\<close>

lemma constructor_tile:
  "AnimatedTile_constructor ref anim fg = Inr a \<Longrightarrow> tile a = ref"
  by (auto simp: AnimatedTile_constructor_def split: option.splits list.splits)

lemma forEach_tile_sound:
  assumes "a \<in> set (state_of (forEach_tile key anim fg l r c tileRow acc))"
  shows "a \<in> set acc
     \<or> (\<exists>i < length tileRow. tileRow ! i - fg = key
            \<and> AnimatedTile_constructor (l, r, c + i) anim fg = Inr a)"
  using assms
proof (induction tileRow arbitrary: c acc)
  case Nil
  then show ?case by (simp add: state_of_def)
next
  case (Cons index tileRow)
  show ?case
  proof (cases "index - fg = key")
    case False
    with Cons.prems have "a \<in> set (state_of (forEach_tile key anim fg l r (Suc c) tileRow acc))"
      by simp
    from Cons.IH [OF this] show ?thesis by auto
  next
    case match: True
    show ?thesis
    proof (cases "AnimatedTile_constructor (l, r, c) anim fg")
      case (Inl e)
      with Cons.prems match show ?thesis by (simp add: state_of_def)
    next
      case (Inr a')
      with Cons.prems match
      have "a \<in> set (state_of (forEach_tile key anim fg l r (Suc c) tileRow (acc @ [a'])))"
        by simp
      from Cons.IH [OF this] consider "a \<in> set acc" | "a = a'"
        | i where "i < length tileRow" "tileRow ! i - fg = key"
            "AnimatedTile_constructor (l, r, Suc c + i) anim fg = Inr a"
        by auto
      then show ?thesis
      proof cases
        case 1
        then show ?thesis by simp
      next
        case 2
        with Inr match have "0 < length (index # tileRow) \<and> (index # tileRow) ! 0 - fg = key
            \<and> AnimatedTile_constructor (l, r, c + 0) anim fg = Inr a" by simp
        then show ?thesis by blast
      next
        case 3
        then have "Suc i < length (index # tileRow) \<and> (index # tileRow) ! Suc i - fg = key
            \<and> AnimatedTile_constructor (l, r, c + Suc i) anim fg = Inr a" by simp
        then show ?thesis by blast
      qed
    qed
  qed
qed

lemma forEach_tileRow_sound:
  assumes "a \<in> set (state_of (forEach_tileRow key anim fg l r rows acc))"
  shows "a \<in> set acc
     \<or> (\<exists>j < length rows. \<exists>i < length (rows ! j). rows ! j ! i - fg = key
            \<and> AnimatedTile_constructor (l, r + j, i) anim fg = Inr a)"
  using assms
proof (induction rows arbitrary: r acc)
  case Nil
  then show ?case by (simp add: state_of_def)
next
  case (Cons tileRow rows)
  have here: "a \<in> set acc
     \<or> (\<exists>j < length (tileRow # rows). \<exists>i < length ((tileRow # rows) ! j).
            (tileRow # rows) ! j ! i - fg = key
            \<and> AnimatedTile_constructor (l, r + j, i) anim fg = Inr a)"
    if "a \<in> set (state_of (forEach_tile key anim fg l r 0 tileRow acc))"
  proof -
    from forEach_tile_sound [OF that] consider "a \<in> set acc"
      | i where "i < length tileRow" "tileRow ! i - fg = key"
          "AnimatedTile_constructor (l, r, i) anim fg = Inr a"
      by auto
    then show ?thesis
    proof cases
      case 1
      then show ?thesis by simp
    next
      case 2
      then have "0 < length (tileRow # rows) \<and> i < length ((tileRow # rows) ! 0)
          \<and> (tileRow # rows) ! 0 ! i - fg = key
          \<and> AnimatedTile_constructor (l, r + 0, i) anim fg = Inr a" by simp
      then show ?thesis by blast
    qed
  qed
  show ?case
  proof (cases "forEach_tile key anim fg l r 0 tileRow acc")
    case (Inl x)
    with Cons.prems have "a \<in> set (state_of (forEach_tile key anim fg l r 0 tileRow acc))"
      by simp
    then show ?thesis by (rule here)
  next
    case (Inr acc')
    with Cons.prems have "a \<in> set (state_of (forEach_tileRow key anim fg l (Suc r) rows acc'))"
      by simp
    from Cons.IH [OF this] consider "a \<in> set acc'"
      | j i where "j < length rows" "i < length (rows ! j)" "rows ! j ! i - fg = key"
          "AnimatedTile_constructor (l, Suc r + j, i) anim fg = Inr a"
      by auto
    then show ?thesis
    proof cases
      case 1
      with Inr have "a \<in> set (state_of (forEach_tile key anim fg l r 0 tileRow acc))"
        by (simp add: state_of_def)
      then show ?thesis by (rule here)
    next
      case 2
      then have "Suc j < length (tileRow # rows) \<and> i < length ((tileRow # rows) ! Suc j)
          \<and> (tileRow # rows) ! Suc j ! i - fg = key
          \<and> AnimatedTile_constructor (l, r + Suc j, i) anim fg = Inr a" by simp
      then show ?thesis by blast
    qed
  qed
qed

lemma forEach_layer_sound:
  assumes "a \<in> set (state_of (forEach_layer key anim fg l ls acc))"
  shows "a \<in> set acc
     \<or> (\<exists>k < length ls. \<not> static_layer (ls ! k)
          \<and> (\<exists>j < length (data (ls ! k)). \<exists>i < length (data (ls ! k) ! j).
                data (ls ! k) ! j ! i - fg = key
                \<and> AnimatedTile_constructor (l + k, j, i) anim fg = Inr a))"
  using assms
proof (induction ls arbitrary: l acc)
  case Nil
  then show ?case by (simp add: state_of_def)
next
  case (Cons layer ls)
  let ?goal = "a \<in> set acc
     \<or> (\<exists>k < length (layer # ls). \<not> static_layer ((layer # ls) ! k)
          \<and> (\<exists>j < length (data ((layer # ls) ! k)). \<exists>i < length (data ((layer # ls) ! k) ! j).
                data ((layer # ls) ! k) ! j ! i - fg = key
                \<and> AnimatedTile_constructor (l + k, j, i) anim fg = Inr a))"
  have later: ?goal
    if "a \<in> set acc'
     \<or> (\<exists>k < length ls. \<not> static_layer (ls ! k)
          \<and> (\<exists>j < length (data (ls ! k)). \<exists>i < length (data (ls ! k) ! j).
                data (ls ! k) ! j ! i - fg = key
                \<and> AnimatedTile_constructor (Suc l + k, j, i) anim fg = Inr a))"
      and "a \<in> set acc' \<Longrightarrow> ?goal" for acc'
  proof -
    from that(1) consider "a \<in> set acc'"
      | k j i where "k < length ls" "\<not> static_layer (ls ! k)" "j < length (data (ls ! k))"
          "i < length (data (ls ! k) ! j)" "data (ls ! k) ! j ! i - fg = key"
          "AnimatedTile_constructor (Suc l + k, j, i) anim fg = Inr a"
      by auto
    then show ?thesis
    proof cases
      case 1
      then show ?thesis by (rule that(2))
    next
      case 2
      then have "Suc k < length (layer # ls) \<and> \<not> static_layer ((layer # ls) ! Suc k)
          \<and> j < length (data ((layer # ls) ! Suc k))
          \<and> i < length (data ((layer # ls) ! Suc k) ! j)
          \<and> data ((layer # ls) ! Suc k) ! j ! i - fg = key
          \<and> AnimatedTile_constructor (l + Suc k, j, i) anim fg = Inr a" by simp
      then show ?thesis by blast
    qed
  qed
  show ?case
  proof (cases "tilemapLayer layer")
    case None
    with Cons.prems show ?thesis by (simp add: state_of_def)
  next
    case (Some ty)
    show ?thesis
    proof (cases "ty = ''StaticTilemapLayer''")
      case True
      with Some Cons.prems
      have "a \<in> set (state_of (forEach_layer key anim fg (Suc l) ls acc))" by simp
      from later [OF Cons.IH [OF this]] show ?thesis by simp
    next
      case dyn: False
      then have ns: "\<not> static_layer layer" using Some by (simp add: static_layer_def)
      have here: ?goal
        if "a \<in> set (state_of (forEach_tileRow key anim fg l 0 (data layer) acc))"
      proof -
        from forEach_tileRow_sound [OF that] consider "a \<in> set acc"
          | j i where "j < length (data layer)" "i < length (data layer ! j)"
              "data layer ! j ! i - fg = key"
              "AnimatedTile_constructor (l, j, i) anim fg = Inr a"
          by auto
        then show ?thesis
        proof cases
          case 1
          then show ?thesis by simp
        next
          case 2
          with ns have "0 < length (layer # ls) \<and> \<not> static_layer ((layer # ls) ! 0)
              \<and> j < length (data ((layer # ls) ! 0))
              \<and> i < length (data ((layer # ls) ! 0) ! j)
              \<and> data ((layer # ls) ! 0) ! j ! i - fg = key
              \<and> AnimatedTile_constructor (l + 0, j, i) anim fg = Inr a" by simp
          then show ?thesis by blast
        qed
      qed
      show ?thesis
      proof (cases "forEach_tileRow key anim fg l 0 (data layer) acc")
        case (Inl x)
        with Some dyn Cons.prems
        have "a \<in> set (state_of (forEach_tileRow key anim fg l 0 (data layer) acc))" by simp
        then show ?thesis by (rule here)
      next
        case (Inr acc')
        with Some dyn Cons.prems
        have "a \<in> set (state_of (forEach_layer key anim fg (Suc l) ls acc'))" by simp
        from Cons.IH [OF this] show ?thesis
        proof (rule later)
          assume "a \<in> set acc'"
          with Inr have "a \<in> set (state_of (forEach_tileRow key anim fg l 0 (data layer) acc))"
            by (simp add: state_of_def)
          then show ?goal by (rule here)
        qed
      qed
    qed
  qed
qed

lemma forEach_layer_wraps:
  assumes "a \<in> set (state_of (forEach_layer key anim fg 0 tm acc))"
  shows "a \<in> set acc \<or> wraps tm fg key anim a"
proof -
  from forEach_layer_sound [OF assms] consider "a \<in> set acc"
    | k j i where "k < length tm" "\<not> static_layer (tm ! k)" "j < length (data (tm ! k))"
        "i < length (data (tm ! k) ! j)" "data (tm ! k) ! j ! i - fg = key"
        "AnimatedTile_constructor (k, j, i) anim fg = Inr a"
    by auto
  then show ?thesis
  proof cases
    case 1
    then show ?thesis by simp
  next
    case 2
    moreover from 2 have "tile a = (k, j, i)" by (simp add: constructor_tile)
    ultimately have "wraps tm fg key anim a"
      by (simp add: wraps_def valid_ref_def tile_index_def)
    then show ?thesis by simp
  qed
qed

lemma for_tileid_wraps:
  assumes "a \<in> set (state_of (for_tileid tileData fg tm acc))"
  shows "a \<in> set acc \<or> (\<exists>(key, entry) \<in> set tileData. wraps tm fg key (animation entry) a)"
  using assms
proof (induction tileData arbitrary: acc)
  case Nil
  then show ?case by (simp add: state_of_def)
next
  case (Cons p tileData)
  obtain key entry where p: "p = (key, entry)" by (cases p) auto
  show ?case
  proof (cases "forEach_layer key (animation entry) fg 0 tm acc")
    case (Inl x)
    with Cons.prems p
    have "a \<in> set (state_of (forEach_layer key (animation entry) fg 0 tm acc))" by simp
    from forEach_layer_wraps [OF this] show ?thesis using p by auto
  next
    case (Inr acc')
    with Cons.prems p have "a \<in> set (state_of (for_tileid tileData fg tm acc'))" by simp
    from Cons.IH [OF this] show ?thesis
    proof
      assume "a \<in> set acc'"
      with Inr have "a \<in> set (state_of (forEach_layer key (animation entry) fg 0 tm acc))"
        by (simp add: state_of_def)
      from forEach_layer_wraps [OF this] show ?thesis using p by auto
    next
      assume "\<exists>(key, entry) \<in> set tileData. wraps tm fg key (animation entry) a"
      then show ?thesis by auto
    qed
  qed
qed

lemma create_wraps:
  assumes "a \<in> set (animatedTiles (state_of (TilemapScene_create (TilemapScene_init s) tm tileData fg)))"
  shows "\<exists>(key, entry) \<in> set tileData. wraps tm fg key (animation entry) a"
proof -
  have "animatedTiles (state_of (TilemapScene_create (TilemapScene_init s) tm tileData fg))
      = state_of (for_tileid tileData fg tm [])"
    by (simp add: TilemapScene_create_def TilemapScene_init_def state_of_def
        split: sum.splits prod.splits)
  with assms for_tileid_wraps [of a tileData fg tm "[]"] show ?thesis by simp
qed

lemma forEach_tile_complete:
  assumes "forEach_tile key anim fg l r c tileRow acc = Inr acc'"
  shows "set acc \<subseteq> set acc'
     \<and> (\<forall>i < length tileRow. tileRow ! i - fg = key
            \<longrightarrow> (\<exists>a \<in> set acc'. AnimatedTile_constructor (l, r, c + i) anim fg = Inr a))"
  using assms
proof (induction tileRow arbitrary: c acc)
  case Nil
  then show ?case by simp
next
  case (Cons index tileRow)
  show ?case
  proof (cases "index - fg = key")
    case False
    with Cons.prems have run: "forEach_tile key anim fg l r (Suc c) tileRow acc = Inr acc'"
      by simp
    from Cons.IH [OF run] have sub: "set acc \<subseteq> set acc'"
      and rest: "\<And>i. i < length tileRow \<Longrightarrow> tileRow ! i - fg = key
          \<Longrightarrow> \<exists>a \<in> set acc'. AnimatedTile_constructor (l, r, Suc c + i) anim fg = Inr a"
      by auto
    have "\<exists>a \<in> set acc'. AnimatedTile_constructor (l, r, c + i) anim fg = Inr a"
      if "i < length (index # tileRow)" "(index # tileRow) ! i - fg = key" for i
    proof (cases i)
      case 0
      with that False show ?thesis by simp
    next
      case (Suc i')
      with that rest [of i'] show ?thesis by simp
    qed
    with sub show ?thesis by blast
  next
    case match: True
    show ?thesis
    proof (cases "AnimatedTile_constructor (l, r, c) anim fg")
      case (Inl e)
      with Cons.prems match show ?thesis by simp
    next
      case (Inr a')
      with Cons.prems match
      have run: "forEach_tile key anim fg l r (Suc c) tileRow (acc @ [a']) = Inr acc'"
        by simp
      from Cons.IH [OF run] have sub: "set (acc @ [a']) \<subseteq> set acc'"
        and rest: "\<And>i. i < length tileRow \<Longrightarrow> tileRow ! i - fg = key
            \<Longrightarrow> \<exists>a \<in> set acc'. AnimatedTile_constructor (l, r, Suc c + i) anim fg = Inr a"
        by auto
      have "\<exists>a \<in> set acc'. AnimatedTile_constructor (l, r, c + i) anim fg = Inr a"
        if "i < length (index # tileRow)" "(index # tileRow) ! i - fg = key" for i
      proof (cases i)
        case 0
        have "a' \<in> set acc'" using sub by simp
        with Inr 0 show ?thesis by auto
      next
        case (Suc i')
        with that rest [of i'] show ?thesis by simp
      qed
      with sub show ?thesis by auto
    qed
  qed
qed

lemma forEach_tileRow_complete:
  assumes "forEach_tileRow key anim fg l r rows acc = Inr acc'"
  shows "set acc \<subseteq> set acc'
     \<and> (\<forall>j < length rows. \<forall>i < length (rows ! j). rows ! j ! i - fg = key
            \<longrightarrow> (\<exists>a \<in> set acc'. AnimatedTile_constructor (l, r + j, i) anim fg = Inr a))"
  using assms
proof (induction rows arbitrary: r acc)
  case Nil
  then show ?case by simp
next
  case (Cons tileRow rows)
  from Cons.prems obtain acc1 where
    row: "forEach_tile key anim fg l r 0 tileRow acc = Inr acc1"
    and run: "forEach_tileRow key anim fg l (Suc r) rows acc1 = Inr acc'"
    by (auto split: sum.splits)
  from forEach_tile_complete [OF row] have sub1: "set acc \<subseteq> set acc1"
    and here: "\<And>i. i < length tileRow \<Longrightarrow> tileRow ! i - fg = key
        \<Longrightarrow> \<exists>a \<in> set acc1. AnimatedTile_constructor (l, r, i) anim fg = Inr a"
    by auto
  from Cons.IH [OF run] have sub2: "set acc1 \<subseteq> set acc'"
    and rest: "\<And>j i. j < length rows \<Longrightarrow> i < length (rows ! j) \<Longrightarrow> rows ! j ! i - fg = key
        \<Longrightarrow> \<exists>a \<in> set acc'. AnimatedTile_constructor (l, Suc r + j, i) anim fg = Inr a"
    by auto
  have "\<exists>a \<in> set acc'. AnimatedTile_constructor (l, r + j, i) anim fg = Inr a"
    if "j < length (tileRow # rows)" "i < length ((tileRow # rows) ! j)"
      "(tileRow # rows) ! j ! i - fg = key" for j i
  proof (cases j)
    case 0
    with that here [of i] sub2 show ?thesis by auto
  next
    case (Suc j')
    with that rest [of j' i] show ?thesis by simp
  qed
  with sub1 sub2 show ?case by blast
qed

lemma forEach_layer_complete:
  assumes "forEach_layer key anim fg l ls acc = Inr acc'"
  shows "set acc \<subseteq> set acc'
     \<and> (\<forall>k < length ls. \<not> static_layer (ls ! k) \<longrightarrow>
          (\<forall>j < length (data (ls ! k)). \<forall>i < length (data (ls ! k) ! j).
              data (ls ! k) ! j ! i - fg = key
              \<longrightarrow> (\<exists>a \<in> set acc'. AnimatedTile_constructor (l + k, j, i) anim fg = Inr a)))"
  using assms
proof (induction ls arbitrary: l acc)
  case Nil
  then show ?case by simp
next
  case (Cons layer ls)
  from Cons.prems obtain ty where ty: "tilemapLayer layer = Some ty"
    by (cases "tilemapLayer layer") auto
  show ?case
  proof (cases "ty = ''StaticTilemapLayer''")
    case True
    then have st: "static_layer layer" using ty by (simp add: static_layer_def)
    from True ty Cons.prems have run: "forEach_layer key anim fg (Suc l) ls acc = Inr acc'"
      by simp
    from Cons.IH [OF run] have sub: "set acc \<subseteq> set acc'"
      and rest: "\<And>k j i. k < length ls \<Longrightarrow> \<not> static_layer (ls ! k)
          \<Longrightarrow> j < length (data (ls ! k)) \<Longrightarrow> i < length (data (ls ! k) ! j)
          \<Longrightarrow> data (ls ! k) ! j ! i - fg = key
          \<Longrightarrow> \<exists>a \<in> set acc'. AnimatedTile_constructor (Suc l + k, j, i) anim fg = Inr a"
      by auto
    have "\<exists>a \<in> set acc'. AnimatedTile_constructor (l + k, j, i) anim fg = Inr a"
      if "k < length (layer # ls)" "\<not> static_layer ((layer # ls) ! k)"
        "j < length (data ((layer # ls) ! k))" "i < length (data ((layer # ls) ! k) ! j)"
        "data ((layer # ls) ! k) ! j ! i - fg = key" for k j i
    proof (cases k)
      case 0
      with that st show ?thesis by simp
    next
      case (Suc k')
      with that rest [of k' j i] show ?thesis by simp
    qed
    with sub show ?thesis by blast
  next
    case False
    with ty Cons.prems obtain acc1 where
      rows: "forEach_tileRow key anim fg l 0 (data layer) acc = Inr acc1"
      and run: "forEach_layer key anim fg (Suc l) ls acc1 = Inr acc'"
      by (auto split: sum.splits)
    from forEach_tileRow_complete [OF rows] have sub1: "set acc \<subseteq> set acc1"
      and here: "\<And>j i. j < length (data layer) \<Longrightarrow> i < length (data layer ! j)
          \<Longrightarrow> data layer ! j ! i - fg = key
          \<Longrightarrow> \<exists>a \<in> set acc1. AnimatedTile_constructor (l, j, i) anim fg = Inr a"
      by auto
    from Cons.IH [OF run] have sub2: "set acc1 \<subseteq> set acc'"
      and rest: "\<And>k j i. k < length ls \<Longrightarrow> \<not> static_layer (ls ! k)
          \<Longrightarrow> j < length (data (ls ! k)) \<Longrightarrow> i < length (data (ls ! k) ! j)
          \<Longrightarrow> data (ls ! k) ! j ! i - fg = key
          \<Longrightarrow> \<exists>a \<in> set acc'. AnimatedTile_constructor (Suc l + k, j, i) anim fg = Inr a"
      by auto
    have "\<exists>a \<in> set acc'. AnimatedTile_constructor (l + k, j, i) anim fg = Inr a"
      if "k < length (layer # ls)" "\<not> static_layer ((layer # ls) ! k)"
        "j < length (data ((layer # ls) ! k))" "i < length (data ((layer # ls) ! k) ! j)"
        "data ((layer # ls) ! k) ! j ! i - fg = key" for k j i
    proof (cases k)
      case 0
      with that here [of j i] sub2 show ?thesis by auto
    next
      case (Suc k')
      with that rest [of k' j i] show ?thesis by simp
    qed
    with sub1 sub2 show ?thesis by blast
  qed
qed

lemma for_tileid_complete:
  assumes "for_tileid tileData fg tm acc = Inr acc'"
  shows "set acc \<subseteq> set acc'
     \<and> (\<forall>(key, entry) \<in> set tileData. \<forall>ref. valid_ref tm ref \<and> \<not> static_layer (tm ! fst ref)
            \<and> tile_index tm ref - fg = key
            \<longrightarrow> (\<exists>a \<in> set acc'. tile a = ref \<and> wraps tm fg key (animation entry) a))"
  using assms
proof (induction tileData arbitrary: acc)
  case Nil
  then show ?case by simp
next
  case (Cons p tileData)
  obtain key entry where p: "p = (key, entry)" by (cases p) auto
  from Cons.prems p obtain acc1 where
    ls: "forEach_layer key (animation entry) fg 0 tm acc = Inr acc1"
    and run: "for_tileid tileData fg tm acc1 = Inr acc'"
    by (auto split: sum.splits)
  from forEach_layer_complete [OF ls] have sub1: "set acc \<subseteq> set acc1"
    and here: "\<And>k j i. k < length tm \<Longrightarrow> \<not> static_layer (tm ! k)
        \<Longrightarrow> j < length (data (tm ! k)) \<Longrightarrow> i < length (data (tm ! k) ! j)
        \<Longrightarrow> data (tm ! k) ! j ! i - fg = key
        \<Longrightarrow> \<exists>a \<in> set acc1. AnimatedTile_constructor (k, j, i) (animation entry) fg = Inr a"
    by auto
  from Cons.IH [OF run] have sub2: "set acc1 \<subseteq> set acc'"
    and rest: "\<forall>(key, entry) \<in> set tileData. \<forall>ref. valid_ref tm ref \<and> \<not> static_layer (tm ! fst ref)
            \<and> tile_index tm ref - fg = key
            \<longrightarrow> (\<exists>a \<in> set acc'. tile a = ref \<and> wraps tm fg key (animation entry) a)"
    by auto
  have first: "\<exists>a \<in> set acc'. tile a = ref \<and> wraps tm fg key (animation entry) a"
    if "valid_ref tm ref" "\<not> static_layer (tm ! fst ref)" "tile_index tm ref - fg = key" for ref
  proof -
    obtain k j i where ref: "ref = (k, j, i)" by (cases ref) auto
    from that here [of k j i] obtain a where a: "a \<in> set acc1"
      "AnimatedTile_constructor (k, j, i) (animation entry) fg = Inr a"
      by (auto simp: ref valid_ref_def tile_index_def)
    then have t: "tile a = ref" by (simp add: ref constructor_tile)
    have "wraps tm fg key (animation entry) a"
      using a(2) that by (simp add: wraps_def t ref)
    moreover have "a \<in> set acc'" using a(1) sub2 by blast
    ultimately show ?thesis using t by blast
  qed
  show ?case using sub1 sub2 first rest by (auto simp: p)
qed

text \<open>
  When \<^verbatim>\<open>create\<close> returns, the instances are those of the matching tiles: each
  instance wraps a tile of a layer that is not static whose local id is a key of the
  tile data, and each such tile has its instance.
\<close>

lemma create_returns_exact:
  assumes "TilemapScene_create (TilemapScene_init s) tm tileData fg = Inr s'"
  shows "(\<forall>a \<in> set (animatedTiles s').
            \<exists>(key, entry) \<in> set tileData. wraps tm fg key (animation entry) a)
     \<and> (\<forall>(key, entry) \<in> set tileData. \<forall>ref.
            valid_ref tm ref \<and> \<not> static_layer (tm ! fst ref) \<and> tile_index tm ref - fg = key
            \<longrightarrow> (\<exists>a \<in> set (animatedTiles s'). tile a = ref \<and> wraps tm fg key (animation entry) a))"
proof -
  from assms have run: "for_tileid tileData fg tm [] = Inr (animatedTiles s')"
    by (auto simp: TilemapScene_create_def TilemapScene_init_def split: sum.splits prod.splits)
  have "\<forall>a \<in> set (animatedTiles s').
            \<exists>(key, entry) \<in> set tileData. wraps tm fg key (animation entry) a"
    using create_wraps [of _ s tm tileData fg] assms by (simp add: state_of_def)
  with for_tileid_complete [OF run] show ?thesis by simp
qed

lemma forEach_layer_static_data:
  assumes "static_layer (ls ! k)"
  shows "forEach_layer key anim fg l (ls[k := (ls ! k)\<lparr>data := d\<rparr>]) acc
     = forEach_layer key anim fg l ls acc"
  using assms
proof (induction ls arbitrary: l k acc)
  case Nil
  then show ?case by simp
next
  case (Cons layer ls)
  show ?case
  proof (cases k)
    case 0
    with Cons.prems show ?thesis by (simp add: static_layer_def)
  next
    case (Suc k')
    with Cons.prems have "static_layer (ls ! k')" by simp
    from Cons.IH [OF this] Suc show ?thesis by (simp split: option.splits sum.splits)
  qed
qed

lemma for_tileid_static_data:
  assumes "static_layer (tm ! k)"
  shows "for_tileid tileData fg (tm[k := (tm ! k)\<lparr>data := d\<rparr>]) acc = for_tileid tileData fg tm acc"
proof (induction tileData arbitrary: acc)
  case Nil
  then show ?case by simp
next
  case (Cons p tileData)
  obtain key entry where p: "p = (key, entry)" by (cases p) auto
  show ?case
    using Cons.IH by (simp add: p forEach_layer_static_data [OF assms] split: sum.splits)
qed






subsection \<open>The tiles an update pass leaves alone\<close>

lemma set_tile_index_other_layer:
  "fst ref \<noteq> l \<Longrightarrow> set_tile_index ref v tm ! l = tm ! l"
  by (cases ref) (simp add: set_tile_index_def)

lemma length_set_tile_index: "length (set_tile_index ref v tm) = length tm"
  by (cases ref) (simp add: set_tile_index_def)

lemma tilemapLayer_set_tile_index:
  "tilemapLayer (set_tile_index ref v tm ! k) = tilemapLayer (tm ! k)"
proof (cases ref)
  case (fields l r c)
  show ?thesis
  proof (cases "l < length tm \<and> k = l")
    case True
    then show ?thesis by (simp add: fields set_tile_index_def)
  next
    case False
    then show ?thesis
      by (cases "l < length tm") (auto simp: fields set_tile_index_def list_update_beyond)
  qed
qed

lemma update_grid:
  "grid_of (AnimatedTile_update t delta tm) = tm
   \<or> (\<exists>v. grid_of (AnimatedTile_update t delta tm) = set_tile_index (tile t) v tm)"
  by (auto simp: AnimatedTile_update_def grid_of_def Let_def split: list.splits)

lemma update_tile:
  "AnimatedTile_update t delta tm = Inr (t', tm') \<Longrightarrow> tile t' = tile t"
  by (auto simp: AnimatedTile_update_def Let_def split: list.splits if_splits)

lemma update_other_layer:
  assumes "fst (tile t) \<noteq> l"
  shows "grid_of (AnimatedTile_update t delta tm) ! l = tm ! l"
  using update_grid [of t delta tm] assms by (auto simp: set_tile_index_other_layer)

lemma forEach_update_other_layer:
  assumes "\<forall>t \<in> set ts. fst (tile t) \<noteq> l"
  shows "grid_of (forEach_update ts delta tm) ! l = tm ! l"
  using assms
proof (induction ts arbitrary: tm)
  case Nil
  then show ?case by (simp add: grid_of_def)
next
  case (Cons t ts)
  show ?case
  proof (cases "AnimatedTile_update t delta tm")
    case (Inl x)
    with update_other_layer [of t l delta tm] Cons.prems show ?thesis
      by (simp add: grid_of_def)
  next
    case (Inr p)
    obtain t' tm' where p: "p = (t', tm')" by (cases p) auto
    have 1: "tm' ! l = tm ! l"
      using update_other_layer [of t l delta tm] Cons.prems Inr p by (simp add: grid_of_def)
    have "grid_of (forEach_update ts delta tm') ! l = tm' ! l"
      using Cons.IH [of tm'] Cons.prems by simp
    moreover have "grid_of (forEach_update (t # ts) delta tm) = grid_of (forEach_update ts delta tm')"
      using Inr p by (simp add: grid_of_def split: sum.splits prod.splits)
    ultimately show ?thesis using 1 by simp
  qed
qed

lemma forEach_update_tiles:
  "forEach_update ts delta tm = Inr (ts', tm') \<Longrightarrow> map tile ts' = map tile ts"
proof (induction ts arbitrary: tm ts' tm')
  case Nil
  then show ?case by simp
next
  case (Cons t ts)
  then show ?case
    by (auto split: sum.splits prod.splits dest: update_tile)
qed

lemma scene_update_other_layer:
  assumes "\<forall>t \<in> set (animatedTiles s). fst (tile t) \<noteq> l"
  shows "grid_of (TilemapScene_update s time delta tm) ! l = tm ! l"
proof -
  have "grid_of (TilemapScene_update s time delta tm)
      = grid_of (forEach_update (animatedTiles s) delta tm)"
    by (simp add: TilemapScene_update_def grid_of_def split: sum.splits prod.splits)
  with forEach_update_other_layer [OF assms] show ?thesis by simp
qed

lemma scene_update_tiles:
  assumes "TilemapScene_update s time delta tm = Inr (s', tm')"
  shows "map tile (animatedTiles s') = map tile (animatedTiles s)"
  using assms
  by (auto simp: TilemapScene_update_def split: sum.splits prod.splits dest: forEach_update_tiles)

lemma run_frames_other_layer:
  assumes "\<forall>t \<in> set (animatedTiles s). fst (tile t) \<noteq> l"
  shows "grid_of (run_frames s fs tm) ! l = tm ! l"
  using assms
proof (induction fs arbitrary: s tm)
  case Nil
  then show ?case by (simp add: grid_of_def)
next
  case (Cons f fs)
  obtain time delta where f: "f = (time, delta)" by (cases f) auto
  have one: "grid_of (TilemapScene_update s time delta tm) ! l = tm ! l"
    using scene_update_other_layer [OF Cons.prems] .
  show ?case
  proof (cases "TilemapScene_update s time delta tm")
    case (Inl x)
    with one f show ?thesis by (simp add: grid_of_def)
  next
    case (Inr p)
    obtain s' tm' where p: "p = (s', tm')" by (cases p) auto
    have "set (map tile (animatedTiles s')) = set (map tile (animatedTiles s))"
      using scene_update_tiles [of s time delta tm s' tm'] Inr p by simp
    then have "\<forall>t \<in> set (animatedTiles s'). fst (tile t) \<noteq> l"
      using Cons.prems by (metis (no_types, lifting) image_iff list.set_map)
    from Cons.IH [OF this, of tm'] one Inr p f show ?thesis by (simp add: grid_of_def)
  qed
qed

lemma static_not_wrapped:
  assumes "wraps tm fg key anim a" "static_layer (tm ! l)"
  shows "fst (tile a) \<noteq> l"
  using assms by (auto simp: wraps_def)

subsection \<open>Claims on the scene\<close>

text \<open>
  C6. For a static layer of the tilemap: \<open>create\<close> does the same whatever tiles the
  layer holds, no instance it makes refers to a tile of the layer, and after any number
  of frames of the scene the layer is what it was, whether the frames returned or one of
  them threw.
\<close>

theorem static_layers_untouched:
  assumes "static_layer (tm ! l)"
  shows "TilemapScene_create s0 (tm[l := (tm ! l)\<lparr>data := d\<rparr>]) tileData fg
       = TilemapScene_create s0 tm tileData fg
     \<and> (\<forall>a \<in> set (animatedTiles (state_of (TilemapScene_create (TilemapScene_init s) tm tileData fg))).
            fst (tile a) \<noteq> l)
     \<and> grid_of (run_frames (state_of (TilemapScene_create (TilemapScene_init s) tm tileData fg)) fs tm) ! l
         = tm ! l"
proof -
  let ?s = "state_of (TilemapScene_create (TilemapScene_init s) tm tileData fg)"
  have 1: "\<forall>a \<in> set (animatedTiles ?s). fst (tile a) \<noteq> l"
  proof
    fix a assume "a \<in> set (animatedTiles ?s)"
    from create_wraps [OF this]
    obtain key and entry :: TilesetTile where "wraps tm fg key (animation entry) a"
      by blast
    then show "fst (tile a) \<noteq> l" using assms by (rule static_not_wrapped)
  qed
  have 2: "TilemapScene_create s0 (tm[l := (tm ! l)\<lparr>data := d\<rparr>]) tileData fg
      = TilemapScene_create s0 tm tileData fg"
    by (simp add: TilemapScene_create_def for_tileid_static_data [OF assms])
  from 1 2 run_frames_other_layer [OF 1, of fs tm] show ?thesis by simp
qed

theorem static_layers_untouched_witness:
  "static_layer (water_map ! 0) \<and> tile_index water_map (0, 0, 0) - 1 = 5
   \<and> TilemapScene_create (TilemapScene_init \<lparr>animatedTiles = []\<rparr>) water_map water_tileData 1
       = Inr \<lparr>animatedTiles = [water_tile 0]\<rparr>
   \<and> TilemapScene_create (TilemapScene_init \<lparr>animatedTiles = []\<rparr>)
         (water_map[0 := (water_map ! 0)\<lparr>data := [[2]]\<rparr>]) water_tileData 1
       = Inr \<lparr>animatedTiles = [water_tile 0]\<rparr>
   \<and> fst (tile (water_tile 0)) \<noteq> 0
   \<and> grid_of (run_frames \<lparr>animatedTiles = [water_tile 0]\<rparr> [(0, 16), (16, 100)] water_map) ! 0
       = water_map ! 0"
proof -
  have st: "static_layer (water_map ! 0)" by (simp add: static_layer_def water_map_def)
  have ix: "tile_index water_map (0, 0, 0) - 1 = 5" by (simp add: tile_index_def water_map_def)
  have c: "TilemapScene_create (TilemapScene_init \<lparr>animatedTiles = []\<rparr>) water_map water_tileData 1
      = Inr \<lparr>animatedTiles = [water_tile 0]\<rparr>"
    by (simp add: TilemapScene_create_def TilemapScene_init_def water_map_def water_tileData_def
        water_frames_def water_tile_def AnimatedTile_constructor_def)
  show ?thesis
    using static_layers_untouched [OF st,
            of "TilemapScene_init \<lparr>animatedTiles = []\<rparr>" "[[2]]" water_tileData 1
               "\<lparr>animatedTiles = []\<rparr>" "[(0, 16), (16, 100)]"]
          st ix
    by (simp add: c state_of_def)
qed



text \<open>
  C5. With the tile data \<open>{0: {}, 1: {animation: [...]}}\<close>, the first gid 1 and one
  dynamic layer of the tiles 1 and 2, the tile of index 2 has the local id 1, whose entry
  carries animation data. \<open>create\<close> makes no instance for it: the tile of index 1
  matches the entry without animation data, the constructor throws, and the scan ends
  with no instance at all.
\<close>

theorem create_throws_on_entry_without_animation:
  "tile_index mixed_map (0, 0, 1) - 1 = 1
   \<and> map_of mixed_tileData 1
       = Some \<lparr>animation = Some [\<lparr>duration = 100, tileid = 1\<rparr>, \<lparr>duration = 100, tileid = 2\<rparr>]\<rparr>
   \<and> \<not> static_layer (mixed_map ! 0)
   \<and> TilemapScene_create (TilemapScene_init \<lparr>animatedTiles = []\<rparr>) mixed_map mixed_tileData 1
       = Inl (TypeError, \<lparr>animatedTiles = []\<rparr>)"
  by (simp add: TilemapScene_create_def TilemapScene_init_def mixed_map_def mixed_tileData_def
      AnimatedTile_constructor_def tile_index_def static_layer_def)



end
